theory Spec2Isabelle
  imports Complex_Main "HOL-Library.Word"
begin

section \<open>Python values used by the network planner runner\<close>

text \<open>
  Exceptions are values. \<open>KeyError\<close>, \<open>TypeError\<close> and \<open>AssertionError\<close> are raised by
  the source itself, \<open>NetworkXError\<close> by \<open>nx.union\<close>; the last three are the error classes
  named by the specification, which the source never constructs.
\<close>

datatype error =
    KeyError | TypeError | AssertionError | NetworkXError
  | ConfigurationError | StructuralIntegrityError | InvalidInputError

text \<open>
  A spatial reference. \<open>gm.PROJ4_FLAT_EARTH\<close> and \<open>gm.PROJ4_LATLONG\<close> are two constants of
  the geomath module; \<open>Proj4\<close> carries any other proj4 string (a projection read from the
  demand file).
\<close>

datatype srs = PROJ4_FLAT_EARTH | PROJ4_LATLONG | Proj4 string

type_synonym coord = "real \<times> real"

section \<open>Coordinate/Projection Resolver\<close>

definition in_lon_lat_box :: "coord \<Rightarrow> bool" where
  "in_lon_lat_box c = (- 180 \<le> fst c \<and> fst c \<le> 180 \<and> - 90 \<le> snd c \<and> snd c \<le> 90)"

text \<open>
  Modelled from the spec: \<open>gm.is_in_lon_lat\<close> (module networker.geomath is not among the
  sources). Section 4.1: a bounding-range heuristic, coordinates whose magnitude is
  consistent with degrees of longitude/latitude are geographic; an empty coordinate
  sequence fails with \<open>InvalidInputError\<close>.
\<close>

definition is_in_lon_lat :: "coord list \<Rightarrow> error + bool" where
  "is_in_lon_lat coords =
     (if coords = [] then Inl InvalidInputError else Inr (list_all in_lon_lat_box coords))"

text \<open>\<open>NetworkPlannerRunner._get_default_proj4\<close>: flat earth unless the helper says lon/lat.\<close>

definition get_default_proj4 :: "coord list \<Rightarrow> error + srs" where
  "get_default_proj4 coords =
     (case is_in_lon_lat coords of
        Inl e \<Rightarrow> Inl e
      | Inr b \<Rightarrow> Inr (if b then PROJ4_LATLONG else PROJ4_FLAT_EARTH))"

section \<open>Generation Dispatcher\<close>

text \<open>
  \<open>NetworkerRunner.ALGOS[self.config['network_algorithm']]\<close>: the registry is a Python
  dict from strategy names to callables, here an association list over any type of
  callables; indexing a dict with an absent key raises \<open>KeyError\<close>.
\<close>

definition lookup_algo :: "(string \<times> 'f) list \<Rightarrow> string \<Rightarrow> error + 'f" where
  "lookup_algo ALGOS name = (case map_of ALGOS name of None \<Rightarrow> Inl KeyError | Some f \<Rightarrow> Inr f)"

section \<open>Graphs\<close>

text \<open>
  The value of a node's \<open>budget\<close> attribute, which is the \<open>metric\<close> of a store node: a
  float, \<open>np.inf\<close> (the mark of a synthetic, fake node) or Python's \<open>None\<close>. Only
  equality with \<open>np.inf\<close> is ever computed on it.
\<close>

datatype pyfloat = Fin real | NpInf | PyNone

text \<open>
  The attribute dictionary of an edge, keys \<open>'weight'\<close>, \<open>'is_existing'\<close> and
  \<open>'subnet_id'\<close>: each attribute may be absent; \<open>subnet_id\<close> may be present with the
  value \<open>None\<close>.
\<close>

record edge_data =
  attr_weight :: "real option"
  attr_is_existing :: "bool option"
  attr_subnet_id :: "nat option option"

text \<open>
  A networkx \<open>Graph\<close>: \<open>node\<close> is the dict from node to its attributes (of which only
  \<open>budget\<close> is read, absent when \<open>None\<close>), \<open>edges\<close> lists each undirected edge once with
  its attribute dictionary. The lists fix one iteration order; Python's dicts promise
  none.
\<close>

record 'n graph =
  node :: "('n \<times> pyfloat option) list"
  edges :: "('n \<times> 'n \<times> edge_data) list"

definition nodes :: "'n graph \<Rightarrow> 'n list" where
  "nodes g = map fst (node g)"

text \<open>What networkx maintains: a node occurs once, and an edge joins nodes of the graph.\<close>

definition wf_graph :: "'n graph \<Rightarrow> bool" where
  "wf_graph g =
     (distinct (nodes g)
      \<and> (\<forall>e \<in> set (edges g). fst e \<in> set (nodes g) \<and> fst (snd e) \<in> set (nodes g)))"

definition adj :: "'n graph \<Rightarrow> ('n \<times> 'n) set" where
  "adj g = set (concat (map (\<lambda>e. [(fst e, fst (snd e)), (fst (snd e), fst e)]) (edges g)))"

definition reachable :: "'n graph \<Rightarrow> 'n \<Rightarrow> 'n \<Rightarrow> bool" where
  "reachable g u v = (u = v \<or> (u, v) \<in> (adj g)\<^sup>+)"

text \<open>
  \<open>nx.connected_components\<close>: take the first node not yet seen, collect everything
  reachable from it, go on with the rest.
\<close>

fun components :: "'n graph \<Rightarrow> 'n list \<Rightarrow> 'n list list" where
  "components g [] = []"
| "components g (n # ns) =
     (n # filter (reachable g n) ns) # components g (filter (\<lambda>v. \<not> reachable g n v) ns)"

text \<open>\<open>G.subgraph(c)\<close>: the nodes of \<open>c\<close> with their attributes, and the edges among them.\<close>

definition subgraph :: "'n graph \<Rightarrow> 'n list \<Rightarrow> 'n graph" where
  "subgraph g c =
     \<lparr>node = filter (\<lambda>na. fst na \<in> set c) (node g),
      edges = filter (\<lambda>e. fst e \<in> set c \<and> fst (snd e) \<in> set c) (edges g)\<rparr>"

definition connected_component_subgraphs :: "'n graph \<Rightarrow> 'n graph list" where
  "connected_component_subgraphs g = map (subgraph g) (components g (nodes g))"

text \<open>\<open>nx.union\<close>: refuses graphs that share a node.\<close>

definition union :: "'n graph \<Rightarrow> 'n graph \<Rightarrow> error + 'n graph" where
  "union G H =
     (if set (nodes G) \<inter> set (nodes H) \<noteq> {} then Inl NetworkXError
      else Inr \<lparr>node = node G @ node H, edges = edges G @ edges H\<rparr>)"

fun union_loop :: "'n graph \<Rightarrow> 'n graph list \<Rightarrow> error + 'n graph" where
  "union_loop U [] = Inr U"
| "union_loop U (H # Hs) =
     (case union U H of Inl e \<Rightarrow> Inl e | Inr U' \<Rightarrow> union_loop U' Hs)"

text \<open>
  \<open>nx.union_all\<close> of networkx 1.x (the release whose \<open>connected_component_subgraphs\<close> and
  \<open>set_node_attributes(G, name, values)\<close> the source calls): it pairs the graphs with
  \<open>rename=(None,)\<close> by \<open>zip_longest\<close>, takes the first pair as the start and folds
  \<open>nx.union\<close> over the rest. For an empty list the first pair is the padding
  \<open>(None, None)\<close>, so the result is Python's \<open>None\<close>.
\<close>

definition union_all :: "'n graph list \<Rightarrow> error + 'n graph option" where
  "union_all gs =
     (case gs of
        [] \<Rightarrow> Inr None
      | U # Hs \<Rightarrow> (case union_loop U Hs of Inl e \<Rightarrow> Inl e | Inr R \<Rightarrow> Inr (Some R)))"

section \<open>Component Filter\<close>

text \<open>
  Lines 153-157 of \<open>_build_network\<close>:
  \<open>nx.union_all(filter(lambda sub: len(sub.node) >= min_node_count,
  nx.connected_component_subgraphs(result_geo_graph)))\<close>.
\<close>

definition component_filter :: "int \<Rightarrow> 'n graph \<Rightarrow> error + 'n graph option" where
  "component_filter min_node_count g =
     union_all (filter (\<lambda>sub. int (length (node sub)) \<ge> min_node_count)
                  (connected_component_subgraphs g))"

section \<open>Auxiliary notions for the component filter\<close>


definition adj_closed :: "'n graph \<Rightarrow> 'n list \<Rightarrow> bool" where
  "adj_closed g c = (\<forall>u \<in> set c. \<forall>w. (u, w) \<in> adj g \<longrightarrow> w \<in> set c)"


definition union_graph :: "'n graph \<Rightarrow> 'n list list \<Rightarrow> 'n graph" where
  "union_graph g cs =
     \<lparr>node = concat (map (\<lambda>c. node (subgraph g c)) cs),
      edges = concat (map (\<lambda>c. edges (subgraph g c)) cs)\<rparr>"

section \<open>Node identifiers and dictionaries\<close>

text \<open>
  A node identifier is a Python object: a native integer (unbounded), a numpy integer
  scalar (\<open>numpy.int64\<close>, the type the comment of \<open>_build_network\<close> blames on the
  filtering step) or a string (the namespaced ids of the existing network).
\<close>

datatype pyid = PyInt int | NpInt "64 word" | PyStr string

text \<open>
  Python's dicts (and so networkx) identify keys by hash and \<open>==\<close>: a numpy integer and
  a native integer of the same value are one key, a string never equals a number.
\<close>

fun key_of :: "pyid \<Rightarrow> int + string" where
  "key_of (PyInt i) = Inl i"
| "key_of (NpInt w) = Inl (sint w)"
| "key_of (PyStr s) = Inr s"

text \<open>\<open>i + 1\<close>: numpy scalars stay numpy scalars and wrap; a string operand raises.\<close>

fun plus_one :: "pyid \<Rightarrow> error + pyid" where
  "plus_one (PyInt i) = Inr (PyInt (i + 1))"
| "plus_one (NpInt w) = Inr (NpInt (w + 1))"
| "plus_one (PyStr s) = Inl TypeError"

text \<open>
  \<open>int(x)\<close> on a number gives the native integer. The source applies \<open>int\<close> to \<open>i + 1\<close>
  only, which is never a string: the addition has raised before. The string case is not
  reached and repeats that error.
\<close>

fun py_int :: "pyid \<Rightarrow> error + pyid" where
  "py_int (PyInt i) = Inr (PyInt i)"
| "py_int (NpInt w) = Inr (PyInt (sint w))"
| "py_int (PyStr s) = Inl TypeError"

definition int_plus_one :: "pyid \<Rightarrow> error + pyid" where
  "int_plus_one i = (case plus_one i of Inl e \<Rightarrow> Inl e | Inr j \<Rightarrow> py_int j)"

text \<open>Decimal digits, for \<open>str(n)\<close>.\<close>

definition digit :: "nat \<Rightarrow> char" where
  "digit d = char_of (48 + d)"

function str_nat :: "nat \<Rightarrow> string" where
  "str_nat n = (if n < 10 then [digit n] else str_nat (n div 10) @ [digit (n mod 10)])"
  by pat_completeness auto
termination
  by (relation "measure (\<lambda>n. n)") auto

declare str_nat.simps [simp del]

definition str_int :: "int \<Rightarrow> string" where
  "str_int i = (if i < 0 then CHR ''-'' # str_nat (nat (- i)) else str_nat (nat i))"

fun py_str :: "pyid \<Rightarrow> string" where
  "py_str (PyInt i) = str_int i"
| "py_str (NpInt w) = str_int (sint w)"
| "py_str (PyStr s) = s"

text \<open>
  A dict as the list of its items in insertion order. \<open>d[k]\<close> raises \<open>KeyError\<close> on an
  absent key; \<open>d[k] = v\<close> replaces the value under an equal key (the key object first
  stored stays) or appends a new item.
\<close>

type_synonym 'v pydict = "(pyid \<times> 'v) list"

definition has_key :: "'v pydict \<Rightarrow> pyid \<Rightarrow> bool" where
  "has_key d k = (key_of k \<in> set (map (key_of \<circ> fst) d))"

definition dict_get :: "'v pydict \<Rightarrow> pyid \<Rightarrow> error + 'v" where
  "dict_get d k =
     (case map_of (map (\<lambda>kv. (key_of (fst kv), snd kv)) d) (key_of k) of
        None \<Rightarrow> Inl KeyError | Some v \<Rightarrow> Inr v)"

definition dict_set :: "'v pydict \<Rightarrow> pyid \<Rightarrow> 'v \<Rightarrow> 'v pydict" where
  "dict_set d k v =
     (if has_key d k then map (\<lambda>kv. if key_of (fst kv) = key_of k then (fst kv, v) else kv) d
      else d @ [(k, v)])"

text \<open>\<open>mapping.get(n, n)\<close>.\<close>

definition dict_get_default :: "pyid pydict \<Rightarrow> pyid \<Rightarrow> pyid" where
  "dict_get_default d k = (case dict_get d k of Inl e \<Rightarrow> k | Inr v \<Rightarrow> v)"

section \<open>GeoGraph\<close>

text \<open>
  \<open>networker.classes.geograph.GeoGraph\<close> as the source uses it: a networkx graph with a
  spatial reference \<open>srs\<close> and a dict \<open>coords\<close> from node to coordinate.
\<close>

record geograph =
  srs :: srs
  coords :: "coord pydict"
  graph :: "pyid graph"

text \<open>
  \<open>nx.relabel_nodes(G, mapping)\<close> for a mapping that sends distinct nodes to distinct
  labels, which is how the source calls it: every node and every edge endpoint \<open>n\<close>
  becomes \<open>mapping.get(n, n)\<close>, attributes are kept. (Labels that collide would be merged
  into one node by networkx.)
\<close>

definition relabel_nodes :: "pyid graph \<Rightarrow> pyid pydict \<Rightarrow> pyid graph" where
  "relabel_nodes G mapping =
     \<lparr>node = map (\<lambda>na. (dict_get_default mapping (fst na), snd na)) (node G),
      edges = map (\<lambda>e. (dict_get_default mapping (fst e),
                         dict_get_default mapping (fst (snd e)), snd (snd e))) (edges G)\<rparr>"

section \<open>Existing-Network Namespacer\<close>

definition grid_label :: "pyid \<Rightarrow> pyid" where
  "grid_label n = PyStr (''grid-'' @ py_str n)"

text \<open>
  Lines 136-139 of \<open>_build_network\<close>: the mapping
  \<open>{n: 'grid-' + str(n) for n in existing.nodes()}\<close> and the re-keyed coordinates
  \<open>{'grid-' + str(n): c for n, c in existing.coords.items()}\<close>. A dict comprehension
  stores its items one after the other.
\<close>

definition grid_mapping :: "pyid list \<Rightarrow> pyid pydict" where
  "grid_mapping ns = foldl (\<lambda>d n. dict_set d n (grid_label n)) [] ns"

definition grid_coords :: "coord pydict \<Rightarrow> coord pydict" where
  "grid_coords cs = foldl (\<lambda>d nc. dict_set d (grid_label (fst nc)) (snd nc)) [] cs"

definition namespace_existing :: "geograph \<Rightarrow> geograph" where
  "namespace_existing existing =
     existing\<lparr>graph := relabel_nodes (graph existing) (grid_mapping (nodes (graph existing))),
              coords := grid_coords (coords existing)\<rparr>"

section \<open>Identifier Realigner\<close>

text \<open>
  Line 168: \<open>{i+1: result_geo_graph.coords[i] for i in filtered_graph}\<close>. Python 2
  evaluates the value of an item before its key.
\<close>

fun realign_coords :: "coord pydict \<Rightarrow> coord pydict \<Rightarrow> pyid list \<Rightarrow> error + coord pydict" where
  "realign_coords rc d [] = Inr d"
| "realign_coords rc d (i # ns) =
     (case dict_get rc i of
        Inl e \<Rightarrow> Inl e
      | Inr c \<Rightarrow> (case plus_one i of
                    Inl e \<Rightarrow> Inl e
                  | Inr k \<Rightarrow> realign_coords rc (dict_set d k c) ns))"

text \<open>Lines 169-170: \<open>{i: int(i+1) for i in filtered_graph}\<close>.\<close>

fun realign_mapping :: "pyid pydict \<Rightarrow> pyid list \<Rightarrow> error + pyid pydict" where
  "realign_mapping d [] = Inr d"
| "realign_mapping d (i # ns) =
     (case int_plus_one i of
        Inl e \<Rightarrow> Inl e
      | Inr j \<Rightarrow> realign_mapping (dict_set d i j) ns)"

text \<open>
  Lines 168-171. \<open>filtered_graph\<close> is what \<open>nx.union_all\<close> returned; iterating Python's
  \<open>None\<close> raises \<open>TypeError\<close>.
\<close>

definition realign :: "geograph \<Rightarrow> pyid graph option \<Rightarrow> error + geograph" where
  "realign result_geo_graph filtered_graph =
     (case filtered_graph of
        None \<Rightarrow> Inl TypeError
      | Some fg \<Rightarrow>
          (case realign_coords (coords result_geo_graph) [] (nodes fg) of
             Inl e \<Rightarrow> Inl e
           | Inr cs \<Rightarrow>
               (case realign_mapping [] (nodes fg) of
                  Inl e \<Rightarrow> Inl e
                | Inr mapping \<Rightarrow>
                    Inr \<lparr>srs = srs result_geo_graph, coords = cs,
                         graph = relabel_nodes fg mapping\<rparr>)))"

section \<open>The dataset store\<close>

text \<open>
  Modelled from the spec: the persistent store \<open>np.lib.dataset_store\<close> (section 6: it
  exposes \<open>addNode(coordinate, isFake) -> record\<close>, a transactional \<open>commit()\<close> and
  iteration over nodes and segments). The records carry the attributes the source reads
  and writes: \<open>id\<close>, \<open>getCommonCoordinates()\<close>, \<open>metric\<close> and the fake flag of a node;
  \<open>node1_id\<close>, \<open>node2_id\<close>, \<open>subnet_id\<close>, \<open>is_existing\<close> and \<open>weight\<close> of a segment.
\<close>

record store_node =
  node_id :: pyid
  node_coords :: coord
  metric :: pyfloat
  is_fake :: bool

record segment =
  node1_id :: pyid
  node2_id :: pyid
  subnet_id :: "nat option"
  is_existing :: bool
  weight :: real

record store =
  store_nodes :: "store_node list"
  store_segments :: "segment list"
  subnet_count :: nat

text \<open>
  Modelled from the spec: \<open>store.addNode(coordinate, is_fake)\<close> makes a node record for the
  coordinate and returns it. Its \<open>id\<close> is the store's to assign; the only caller in the
  source overwrites it at once, so the placeholder is never read.
\<close>

definition addNode :: "coord \<Rightarrow> bool \<Rightarrow> store_node" where
  "addNode c fake = \<lparr>node_id = PyInt 0, node_coords = c, metric = PyNone, is_fake = fake\<rparr>"

text \<open>\<open>session.add(record)\<close> followed by \<open>session.commit()\<close>, for a node and for a segment.\<close>

definition session_add_node :: "store \<Rightarrow> store_node \<Rightarrow> store" where
  "session_add_node st n = st\<lparr>store_nodes := store_nodes st @ [n]\<rparr>"

definition session_add_segment :: "store \<Rightarrow> segment \<Rightarrow> store" where
  "session_add_segment st s = st\<lparr>store_segments := store_segments st @ [s]\<rparr>"

text \<open>
  Modelled from the spec: \<open>cycleNodes(isFake)\<close> and \<open>cycleSegments(is_existing)\<close> iterate
  over the records with the given flag; \<open>cycleNodes()\<close> is \<open>cycleNodes(isFake=False)\<close>.
\<close>

definition cycleNodes :: "store \<Rightarrow> bool \<Rightarrow> store_node list" where
  "cycleNodes st isFake = filter (\<lambda>n. is_fake n = isFake) (store_nodes st)"

definition cycleSegments :: "store \<Rightarrow> bool \<Rightarrow> segment list" where
  "cycleSegments st ex = filter (\<lambda>s. is_existing s = ex) (store_segments st)"

section \<open>Topology Persister\<close>

text \<open>
  The existing pass, lines 178-185. \<open>dataset_store.Subnet()\<close> is built once and never
  added to the session, so the \<open>id\<close> every existing segment receives is the one of that
  single object, which the store has not numbered: \<open>None\<close>.
  \<open>existing[u][v]['weight']\<close> raises \<open>KeyError\<close> when the edge has no weight.
\<close>

fun store_existing_edges ::
  "(pyid \<times> pyid \<times> edge_data) list \<Rightarrow> nat option \<Rightarrow> store \<Rightarrow> error + store" where
  "store_existing_edges [] sid st = Inr st"
| "store_existing_edges (e # es) sid st =
     (case attr_weight (snd (snd e)) of
        None \<Rightarrow> Inl KeyError
      | Some w \<Rightarrow>
          store_existing_edges es sid
            (session_add_segment st
               \<lparr>node1_id = fst e, node2_id = fst (snd e), subnet_id = sid,
                is_existing = True, weight = w\<rparr>))"

text \<open>\<open>if existing:\<close> is false for \<open>None\<close> and for a graph without nodes.\<close>

definition store_existing :: "geograph option \<Rightarrow> store \<Rightarrow> error + store" where
  "store_existing existing st =
     (case existing of
        None \<Rightarrow> Inr st
      | Some ex \<Rightarrow>
          if node (graph ex) = [] then Inr st
          else store_existing_edges (edges (graph ex)) None st)"

text \<open>\<open>msf.node[n]['budget']\<close>: both lookups can raise \<open>KeyError\<close>.\<close>

definition node_budget :: "pyid graph \<Rightarrow> pyid \<Rightarrow> error + pyfloat" where
  "node_budget g n =
     (case dict_get (node g) n of
        Inl e \<Rightarrow> Inl e
      | Inr None \<Rightarrow> Inl KeyError
      | Inr (Some b) \<Rightarrow> Inr b)"

text \<open>\<open>[n for n in edge if msf.node[n]['budget'] == np.inf]\<close>.\<close>

fun fake_nodes :: "pyid graph \<Rightarrow> pyid list \<Rightarrow> error + pyid list" where
  "fake_nodes g [] = Inr []"
| "fake_nodes g (n # ns) =
     (case node_budget g n of
        Inl e \<Rightarrow> Inl e
      | Inr b \<Rightarrow>
          (case fake_nodes g ns of
             Inl e \<Rightarrow> Inl e
           | Inr fs \<Rightarrow> Inr (if b = NpInf then n # fs else fs)))"

text \<open>
  Lines 199-207, the loop \<open>for i, fake in enumerate(..., 1)\<close>: the node is added and
  committed first, the assertion \<open>i <= 1\<close> comes after.
\<close>

fun add_fake_nodes :: "geograph \<Rightarrow> nat \<Rightarrow> pyid list \<Rightarrow> store \<Rightarrow> error + store" where
  "add_fake_nodes msf i [] st = Inr st"
| "add_fake_nodes msf i (fake # fs) st =
     (case dict_get (coords msf) fake of
        Inl e \<Rightarrow> Inl e
      | Inr c \<Rightarrow>
          (if i \<le> 1
           then add_fake_nodes msf (Suc i) fs
                  (session_add_node st ((addNode c True)\<lparr>node_id := fake\<rparr>))
           else Inl AssertionError))"

text \<open>Lines 195-214, the body of the loop over the edges of one component.\<close>

definition store_edge ::
  "geograph \<Rightarrow> nat option \<Rightarrow> pyid \<times> pyid \<times> edge_data \<Rightarrow> store \<Rightarrow> error + store" where
  "store_edge msf sid e st =
     (case fake_nodes (graph msf) [fst e, fst (snd e)] of
        Inl err \<Rightarrow> Inl err
      | Inr fs \<Rightarrow>
          (case add_fake_nodes msf 1 fs st of
             Inl err \<Rightarrow> Inl err
           | Inr st' \<Rightarrow>
               (case attr_weight (snd (snd e)) of
                  None \<Rightarrow> Inl KeyError
                | Some w \<Rightarrow>
                    Inr (session_add_segment st'
                           \<lparr>node1_id = fst e, node2_id = fst (snd e), subnet_id = sid,
                            is_existing = False, weight = w\<rparr>))))"

fun store_edges ::
  "geograph \<Rightarrow> nat option \<Rightarrow> (pyid \<times> pyid \<times> edge_data) list \<Rightarrow> store \<Rightarrow> error + store" where
  "store_edges msf sid [] st = Inr st"
| "store_edges msf sid (e # es) st =
     (case store_edge msf sid e st of
        Inl err \<Rightarrow> Inl err
      | Inr st' \<Rightarrow> store_edges msf sid es st')"

text \<open>
  Lines 188-214: each component gets a new \<open>Subnet\<close>, added and committed before its
  \<open>id\<close> is read, so that the store has numbered it.
\<close>

fun store_subgraphs :: "geograph \<Rightarrow> pyid graph list \<Rightarrow> store \<Rightarrow> error + store" where
  "store_subgraphs msf [] st = Inr st"
| "store_subgraphs msf (sub # subs) st =
     (case store_edges msf (Some (Suc (subnet_count st))) (edges sub)
             (st\<lparr>subnet_count := Suc (subnet_count st)\<rparr>) of
        Inl err \<Rightarrow> Inl err
      | Inr st' \<Rightarrow> store_subgraphs msf subs st')"

text \<open>\<open>NetworkPlannerRunner._store_networks\<close>.\<close>

definition store_networks :: "geograph \<Rightarrow> geograph option \<Rightarrow> store \<Rightarrow> error + store" where
  "store_networks msf existing st =
     (case store_existing existing st of
        Inl err \<Rightarrow> Inl err
      | Inr st' \<Rightarrow> store_subgraphs msf (connected_component_subgraphs (graph msf)) st')"

section \<open>Demand Graph Builder\<close>

text \<open>\<open>enumerate(xs)\<close> as a dict: the keys are the native integers from 0.\<close>

definition enumerate_dict :: "'v list \<Rightarrow> 'v pydict" where
  "enumerate_dict xs = zip (map (\<lambda>i. PyInt (int i)) [0..<length xs]) xs"

text \<open>
  \<open>NetworkPlannerRunner._get_demand_nodes\<close>. \<open>not input_proj\<close> holds for \<open>None\<close> and for
  the empty string. \<open>GeoGraph(input_proj, coords_dict)\<close> has the keys of \<open>coords_dict\<close> as
  its nodes (\<open>nx.set_node_attributes\<close> of networkx 1.x writes into \<open>G.node[i]\<close> and would
  fail otherwise) and no edge.
\<close>

definition get_demand_nodes :: "store \<Rightarrow> srs option \<Rightarrow> error + geograph" where
  "get_demand_nodes st input_proj =
     (let ns = cycleNodes st False;
          cs = map node_coords ns
      in case (if input_proj = None \<or> input_proj = Some (Proj4 [])
               then get_default_proj4 cs else Inr (the input_proj)) of
           Inl e \<Rightarrow> Inl e
         | Inr p \<Rightarrow>
             Inr \<lparr>srs = p, coords = enumerate_dict cs,
                  graph = \<lparr>node = enumerate_dict (map (\<lambda>n. Some (metric n)) ns), edges = []\<rparr>\<rparr>)"

section \<open>The pipeline of \<open>_build_network\<close>\<close>

text \<open>
  The configuration dict. A key that may be missing is an option: \<open>existing_networks\<close> is
  tested with \<open>in\<close>, the other two are indexed and raise \<open>KeyError\<close> when absent
  (\<open>minimum_node_count\<close> stands for \<open>config['network_parameters']['minimum_node_count']\<close>).
\<close>

record 'c config =
  existing_networks :: "'c option"
  network_algorithm :: "string option"
  minimum_node_count :: "int option"

text \<open>
  Lines 131-144. The loader \<open>networker_runner.load_existing_networks\<close> and
  \<open>networker_runner.merge_network_and_nodes\<close> are collaborators outside the sources and
  are parameters here; \<open>'s\<close> and \<open>'r\<close> are the types of the sub-problem partition and of the
  spatial index.
\<close>

definition merge_stage ::
  "('c \<Rightarrow> error + geograph) \<Rightarrow> (geograph \<Rightarrow> geograph \<Rightarrow> error + geograph \<times> 's \<times> 'r) \<Rightarrow>
   'c config \<Rightarrow> geograph \<Rightarrow> error + geograph option \<times> geograph \<times> 's option \<times> 'r option" where
  "merge_stage load_existing_networks merge_network_and_nodes cfg demand_nodes =
     (case existing_networks cfg of
        None \<Rightarrow> Inr (None, demand_nodes, None, None)
      | Some params \<Rightarrow>
          (case load_existing_networks params of
             Inl e \<Rightarrow> Inl e
           | Inr loaded \<Rightarrow>
               (let existing = namespace_existing loaded
                in case merge_network_and_nodes existing demand_nodes of
                     Inl e \<Rightarrow> Inl e
                   | Inr (geo_graph, subgraphs, rtree) \<Rightarrow>
                       Inr (Some existing, geo_graph, Some subgraphs, Some rtree))))"

text \<open>
  Lines 146-150: the registry is indexed by the configured name, then the strategy runs.
\<close>

definition dispatch_stage ::
  "(string \<times> (geograph \<Rightarrow> 's option \<Rightarrow> 'r option \<Rightarrow> error + geograph)) list \<Rightarrow>
   'c config \<Rightarrow> geograph \<Rightarrow> 's option \<Rightarrow> 'r option \<Rightarrow> error + geograph" where
  "dispatch_stage ALGOS cfg geo_graph subgraphs rtree =
     (case network_algorithm cfg of
        None \<Rightarrow> Inl KeyError
      | Some name \<Rightarrow>
          (case lookup_algo ALGOS name of
             Inl e \<Rightarrow> Inl e
           | Inr network_algo \<Rightarrow> network_algo geo_graph subgraphs rtree))"

text \<open>Lines 152-171: the threshold is read, the components are filtered, the ids realigned.\<close>

definition filter_stage :: "'c config \<Rightarrow> geograph \<Rightarrow> error + geograph" where
  "filter_stage cfg result_geo_graph =
     (case minimum_node_count cfg of
        None \<Rightarrow> Inl KeyError
      | Some min_node_count \<Rightarrow>
          (case component_filter min_node_count (graph result_geo_graph) of
             Inl e \<Rightarrow> Inl e
           | Inr filtered_graph \<Rightarrow> realign result_geo_graph filtered_graph))"

text \<open>\<open>NetworkPlannerRunner._build_network\<close>.\<close>

definition build_network ::
  "('c \<Rightarrow> error + geograph) \<Rightarrow> (geograph \<Rightarrow> geograph \<Rightarrow> error + geograph \<times> 's \<times> 'r) \<Rightarrow>
   (string \<times> (geograph \<Rightarrow> 's option \<Rightarrow> 'r option \<Rightarrow> error + geograph)) list \<Rightarrow>
   'c config \<Rightarrow> geograph \<Rightarrow> error + geograph option \<times> geograph" where
  "build_network load_existing_networks merge_network_and_nodes ALGOS cfg demand_nodes =
     (case merge_stage load_existing_networks merge_network_and_nodes cfg demand_nodes of
        Inl e \<Rightarrow> Inl e
      | Inr (existing, geo_graph, subgraphs, rtree) \<Rightarrow>
          (case dispatch_stage ALGOS cfg geo_graph subgraphs rtree of
             Inl e \<Rightarrow> Inl e
           | Inr result_geo_graph \<Rightarrow>
               (case filter_stage cfg result_geo_graph of
                  Inl e \<Rightarrow> Inl e
                | Inr msf \<Rightarrow> Inr (existing, msf))))"

section \<open>\<open>dataset_store_to_geograph\<close>\<close>







section \<open>Auxiliary notions for the realigner and the namespacer\<close>

fun is_number :: "pyid \<Rightarrow> bool" where
  "is_number (PyInt i) = True"
| "is_number (NpInt w) = True"
| "is_number (PyStr s) = False"





definition coord_of :: "coord pydict \<Rightarrow> pyid \<Rightarrow> coord" where
  "coord_of rc n = (case dict_get rc n of Inr c \<Rightarrow> c | Inl e \<Rightarrow> (0, 0))"

section \<open>Sample collaborators\<close>

text \<open>
  Stand-ins for the collaborators outside the sources, for evaluating the pipeline on
  concrete inputs: a generation strategy that returns the merged graph as it is, a
  loader that finds nothing to load, and a merge that returns the existing network.
\<close>

definition identity_algo :: "geograph \<Rightarrow> unit option \<Rightarrow> unit option \<Rightarrow> error + geograph" where
  "identity_algo geo_graph subgraphs rtree = Inr geo_graph"

definition no_loader :: "unit \<Rightarrow> error + geograph" where
  "no_loader params = Inl KeyError"

definition plain_merge :: "geograph \<Rightarrow> geograph \<Rightarrow> error + geograph \<times> unit \<times> unit" where
  "plain_merge existing demand_nodes = Inr (existing, (), ())"

section \<open>Auxiliary notions for the persister\<close>

text \<open>The infinite-budget endpoints of an edge, when every budget lookup succeeds.\<close>

definition edge_fakes :: "pyid graph \<Rightarrow> pyid \<times> pyid \<times> edge_data \<Rightarrow> pyid list" where
  "edge_fakes g e = filter (\<lambda>n. node_budget g n = Inr NpInf) [fst e, fst (snd e)]"

text \<open>The node record and the segment record the proposed pass writes.\<close>

definition fake_record :: "geograph \<Rightarrow> pyid \<Rightarrow> store_node" where
  "fake_record msf f =
     \<lparr>node_id = f, node_coords = coord_of (coords msf) f, metric = PyNone, is_fake = True\<rparr>"

definition edge_segment :: "nat option \<Rightarrow> bool \<Rightarrow> pyid \<times> pyid \<times> edge_data \<Rightarrow> segment" where
  "edge_segment sid ex e =
     \<lparr>node1_id = fst e, node2_id = fst (snd e), subnet_id = sid, is_existing = ex,
      weight = (case attr_weight (snd (snd e)) of Some w \<Rightarrow> w | None \<Rightarrow> 0)\<rparr>"

definition new_nodes :: "geograph \<Rightarrow> (pyid \<times> pyid \<times> edge_data) list \<Rightarrow> store_node list" where
  "new_nodes msf es = concat (map (\<lambda>e. map (fake_record msf) (edge_fakes (graph msf) e)) es)"

fun subgraph_segments :: "nat \<Rightarrow> pyid graph list \<Rightarrow> segment list" where
  "subgraph_segments k [] = []"
| "subgraph_segments k (sub # subs) =
     map (edge_segment (Some (Suc k)) False) (edges sub) @ subgraph_segments (Suc k) subs"

text \<open>
  An edge all of whose lookups succeed: both endpoints have a budget and a coordinate,
  the edge has a weight.
\<close>

definition edge_ok :: "geograph \<Rightarrow> pyid \<times> pyid \<times> edge_data \<Rightarrow> bool" where
  "edge_ok msf e =
     ((\<forall>n \<in> {fst e, fst (snd e)}.
         (\<exists>b. node_budget (graph msf) n = Inr b) \<and> has_key (coords msf) n)
      \<and> attr_weight (snd (snd e)) \<noteq> None)"

text \<open>A graph as the data model has it: well formed, every edge with all its attributes.\<close>

definition complete_msf :: "geograph \<Rightarrow> bool" where
  "complete_msf msf =
     (wf_graph (graph msf) \<and> (\<forall>e \<in> set (edges (graph msf)). edge_ok msf e))"

definition two_fakes :: "pyid graph \<Rightarrow> pyid \<times> pyid \<times> edge_data \<Rightarrow> bool" where
  "two_fakes g e =
     (node_budget g (fst e) = Inr NpInf \<and> node_budget g (fst (snd e)) = Inr NpInf)"

text \<open>The edges in the order the proposed pass visits them, component by component.\<close>

definition component_edges :: "pyid graph \<Rightarrow> (pyid \<times> pyid \<times> edge_data) list" where
  "component_edges g = concat (map edges (connected_component_subgraphs g))"

section \<open>Connected components\<close>

lemma reachable_rtrancl: "reachable g u v \<longleftrightarrow> (u, v) \<in> (adj g)\<^sup>*"
  by (auto simp: reachable_def rtrancl_eq_or_trancl)

lemma adj_iff:
  "(a, b) \<in> adj g \<longleftrightarrow> (\<exists>d. (a, b, d) \<in> set (edges g) \<or> (b, a, d) \<in> set (edges g))"
  by (force simp: adj_def)

lemma sym_adj: "sym (adj g)"
  by (auto simp: sym_def adj_iff)

lemma reachable_refl: "reachable g u u"
  by (simp add: reachable_def)



lemma set_concat_components: "set (concat (components g ns)) = set ns"
  by (induction g ns rule: components.induct) auto






lemma closed_components:
  "adj_closed g ns \<Longrightarrow> c \<in> set (components g ns) \<Longrightarrow> adj_closed g c"
proof (induction g ns rule: components.induct)
  case (1 g)
  then show ?case by simp
next
  case (2 g n ns)
  have step: "reachable g n w" if "reachable g n u" "(u, w) \<in> adj g" for u w
    using that by (auto simp: reachable_rtrancl)
  have bk: "reachable g n u" if "reachable g n w" "(u, w) \<in> adj g" for u w
  proof -
    from that(2) have "(w, u) \<in> adj g" using sym_adj [of g] by (auto simp: sym_def)
    with that(1) show ?thesis by (auto simp: reachable_rtrancl)
  qed
  have cl_rest: "adj_closed g (filter (\<lambda>v. \<not> reachable g n v) ns)"
    unfolding adj_closed_def
  proof (intro ballI allI impI)
    fix u w assume u: "u \<in> set (filter (\<lambda>v. \<not> reachable g n v) ns)" and e: "(u, w) \<in> adj g"
    from u have "u \<in> set (n # ns)" by simp
    with "2.prems"(1) e have "w \<in> set (n # ns)" unfolding adj_closed_def by blast
    moreover have "\<not> reachable g n w" using bk [OF _ e] u by auto
    ultimately show "w \<in> set (filter (\<lambda>v. \<not> reachable g n v) ns)"
      by (auto simp: reachable_refl)
  qed
  have cl_first: "adj_closed g (n # filter (reachable g n) ns)"
    unfolding adj_closed_def
  proof (intro ballI allI impI)
    fix u w assume u: "u \<in> set (n # filter (reachable g n) ns)" and e: "(u, w) \<in> adj g"
    from u have un: "reachable g n u" by (auto simp: reachable_refl)
    from u have "u \<in> set (n # ns)" by auto
    with "2.prems"(1) e have "w \<in> set (n # ns)" unfolding adj_closed_def by blast
    with step [OF un e] show "w \<in> set (n # filter (reachable g n) ns)" by auto
  qed
  from "2.prems"(2) show ?case
    using cl_first "2.IH" [OF cl_rest] by auto
qed

lemma closed_nodes: "wf_graph g \<Longrightarrow> adj_closed g (nodes g)"
  by (auto simp: wf_graph_def adj_closed_def adj_iff)

section \<open>The component filter computes the union of the kept components\<close>












lemma edges_union_graph:
  "e \<in> set (edges (union_graph g cs)) \<longleftrightarrow>
     e \<in> set (edges g) \<and> (\<exists>c \<in> set cs. fst e \<in> set c \<and> fst (snd e) \<in> set c)"
  by (auto simp: union_graph_def subgraph_def)












lemma edges_union_graph_all:
  assumes "wf_graph g"
  shows "set (edges (union_graph g (components g (nodes g)))) = set (edges g)"
proof -
  have "\<exists>c \<in> set (components g (nodes g)). fst e \<in> set c \<and> fst (snd e) \<in> set c"
    if e: "e \<in> set (edges g)" for e
  proof -
    from e assms have "fst e \<in> set (nodes g)" by (auto simp: wf_graph_def)
    then have "fst e \<in> set (concat (components g (nodes g)))"
      unfolding set_concat_components .
    then obtain c where c: "c \<in> set (components g (nodes g))" "fst e \<in> set c" by auto
    have "adj_closed g c" by (rule closed_components [OF closed_nodes [OF assms] c(1)])
    moreover have "(fst e, fst (snd e)) \<in> adj g" using e by (force simp: adj_def)
    ultimately have "fst (snd e) \<in> set c" using c(2) unfolding adj_closed_def by blast
    with c show ?thesis by blast
  qed
  then show ?thesis using edges_union_graph [of _ g "components g (nodes g)"] by blast
qed

section \<open>Component Filter: the claims\<close>





text \<open>
  Claim C4. A forest of one demand node under the threshold 2: every component is below
  the threshold, the filter yields \<open>None\<close> instead of a graph with zero nodes, and the
  stage fails with \<open>TypeError\<close> when line 168 iterates over it.
\<close>

theorem filter_stage_all_below_threshold:
  "component_filter 2 \<lparr>node = [(PyInt 0, Some (Fin 10))], edges = []\<rparr> = Inr None
   \<and> filter_stage
        \<lparr>existing_networks = None :: unit option, network_algorithm = Some ''mod_boruvka'',
         minimum_node_count = Some 2\<rparr>
        \<lparr>srs = PROJ4_LATLONG, coords = [(PyInt 0, (36.8, - 1.3))],
         graph = \<lparr>node = [(PyInt 0, Some (Fin 10))], edges = []\<rparr>\<rparr> = Inl TypeError"
proof -
  have "component_filter 2 \<lparr>node = [(PyInt 0, Some (Fin 10))], edges = []\<rparr> = Inr None"
    by (simp add: component_filter_def connected_component_subgraphs_def nodes_def
        union_all_def subgraph_def)
  then show ?thesis
    by (simp add: filter_stage_def realign_def)
qed

section \<open>Identifiers, dictionaries and the realigner\<close>






lemma has_key_append: "has_key (d @ e) k \<longleftrightarrow> has_key d k \<or> has_key e k"
  by (auto simp: has_key_def)

lemma dict_set_fresh: "\<not> has_key d k \<Longrightarrow> dict_set d k v = d @ [(k, v)]"
  by (simp add: dict_set_def)

lemma dict_get_has_key: "has_key d k \<Longrightarrow> dict_get d k = Inr (coord_of d k)"
  by (auto simp: coord_of_def dict_get_def has_key_def map_of_eq_None_iff image_iff
      split: option.splits sum.splits)

lemma dict_get_distinct:
  "distinct (map (key_of \<circ> fst) d) \<Longrightarrow> (k, v) \<in> set d \<Longrightarrow> key_of k' = key_of k \<Longrightarrow>
   dict_get d k' = Inr v"
proof -
  assume d: "distinct (map (key_of \<circ> fst) d)" and kv: "(k, v) \<in> set d" and k: "key_of k' = key_of k"
  let ?d = "map (\<lambda>kv. (key_of (fst kv), snd kv)) d"
  have "map fst ?d = map (key_of \<circ> fst) d" by simp
  with d have "distinct (map fst ?d)" by (simp only:)
  moreover from kv have "(key_of k, v) \<in> set ?d" by force
  ultimately have "map_of ?d (key_of k) = Some v" by (rule map_of_is_SomeI)
  then show ?thesis by (simp add: dict_get_def k)
qed


lemma has_key_single: "has_key [(k, v)] k' \<longleftrightarrow> key_of k' = key_of k"
  by (auto simp: has_key_def)





lemma dict_get_default_mapping:
  assumes "distinct (map key_of ns)" "n \<in> set ns"
  shows "dict_get_default (map (\<lambda>n. (n, f n)) ns) n = f n"
proof -
  have "distinct (map (key_of \<circ> fst) (map (\<lambda>n. (n, f n)) ns))"
    using assms(1) by (simp add: comp_def)
  moreover have "(n, f n) \<in> set (map (\<lambda>n. (n, f n)) ns)" using assms(2) by auto
  ultimately have "dict_get (map (\<lambda>n. (n, f n)) ns) n = Inr (f n)"
    by (rule dict_get_distinct) simp
  then show ?thesis by (simp add: dict_get_default_def)
qed

lemma relabel_nodes_mapping:
  assumes "wf_graph G" "distinct (map key_of (nodes G))"
  shows "relabel_nodes G (map (\<lambda>n. (n, f n)) (nodes G))
         = \<lparr>node = map (\<lambda>na. (f (fst na), snd na)) (node G),
            edges = map (\<lambda>e. (f (fst e), f (fst (snd e)), snd (snd e))) (edges G)\<rparr>"
proof -
  note m = dict_get_default_mapping [OF assms(2), of _ f]
  have "fst na \<in> set (nodes G)" if "na \<in> set (node G)" for na
    using that by (simp add: nodes_def)
  moreover have "fst e \<in> set (nodes G) \<and> fst (snd e) \<in> set (nodes G)" if "e \<in> set (edges G)" for e
    using that assms(1) by (simp add: wf_graph_def)
  ultimately show ?thesis
    by (simp add: relabel_nodes_def m)
qed


section \<open>Generation Dispatcher: the claim\<close>

text \<open>
  Claim C8, as amended. When the configured \<open>network_algorithm\<close> names no strategy of the
  registry, the dispatcher fails with \<open>KeyError\<close>, the failure of indexing the registry
  dict; so does \<open>_build_network\<close> once loading and merging have succeeded.
\<close>

theorem unknown_strategy_key_error:
  assumes "network_algorithm cfg = Some name" and "name \<notin> fst ` set ALGOS"
    and "merge_stage load_existing mrg cfg demand_nodes = Inr m"
  shows "dispatch_stage ALGOS cfg geo_graph subgraphs rtree = Inl KeyError
         \<and> build_network load_existing mrg ALGOS cfg demand_nodes = Inl KeyError"
proof -
  from assms(2) have "map_of ALGOS name = None" by (simp add: map_of_eq_None_iff)
  then have d: "dispatch_stage ALGOS cfg g s r = Inl KeyError" for g s r
    using assms(1) by (simp add: dispatch_stage_def lookup_algo_def)
  then show ?thesis
    using assms(3) by (simp add: build_network_def split: prod.splits)
qed

theorem unknown_strategy_key_error_witness:
  "dispatch_stage [(''mod_boruvka'', identity_algo), (''mod_kruskal'', identity_algo)]
     \<lparr>existing_networks = None :: unit option, network_algorithm = Some ''prim'',
      minimum_node_count = Some 2\<rparr>
     \<lparr>srs = PROJ4_LATLONG, coords = [], graph = \<lparr>node = [], edges = []\<rparr>\<rparr> None None
   = Inl KeyError"
proof -
  let ?cfg = "\<lparr>existing_networks = None :: unit option, network_algorithm = Some ''prim'',
      minimum_node_count = Some 2\<rparr>"
  let ?d = "\<lparr>srs = PROJ4_LATLONG, coords = [], graph = \<lparr>node = [], edges = []\<rparr>\<rparr>"
  have a: "network_algorithm ?cfg = Some ''prim''" by simp
  have b: "''prim'' \<notin> fst ` set [(''mod_boruvka'', identity_algo), (''mod_kruskal'', identity_algo)]"
    by simp
  have c: "merge_stage no_loader plain_merge ?cfg ?d = Inr (None, ?d, None, None)"
    by (simp add: merge_stage_def)
  from unknown_strategy_key_error [OF a b c] show ?thesis by blast
qed

text \<open>
  Claim C8 as stated fails: with the registry of two strategies and the unknown name
  \<open>steiner\<close> the pipeline fails with \<open>KeyError\<close>, not with \<open>ConfigurationError\<close>.
\<close>

theorem unknown_strategy_not_configuration_error:
  "build_network no_loader plain_merge
     [(''mod_boruvka'', identity_algo), (''mod_kruskal'', identity_algo)]
     \<lparr>existing_networks = None, network_algorithm = Some ''steiner'',
      minimum_node_count = Some 2\<rparr>
     \<lparr>srs = PROJ4_LATLONG, coords = [(PyInt 0, (36.8, - 1.3))],
      graph = \<lparr>node = [(PyInt 0, Some (Fin 10))], edges = []\<rparr>\<rparr>
   = Inl KeyError
   \<and> build_network no_loader plain_merge
     [(''mod_boruvka'', identity_algo), (''mod_kruskal'', identity_algo)]
     \<lparr>existing_networks = None, network_algorithm = Some ''steiner'',
      minimum_node_count = Some 2\<rparr>
     \<lparr>srs = PROJ4_LATLONG, coords = [(PyInt 0, (36.8, - 1.3))],
      graph = \<lparr>node = [(PyInt 0, Some (Fin 10))], edges = []\<rparr>\<rparr>
   \<noteq> Inl ConfigurationError"
  by (simp add: build_network_def merge_stage_def dispatch_stage_def lookup_algo_def)

section \<open>Identifier Realigner: the claim\<close>

lemma nodes_enumerate_dict: "map fst (enumerate_dict xs) = map (\<lambda>i. PyInt (int i)) [0..<length xs]"
  by (simp add: enumerate_dict_def)

lemma nodes_get_demand_nodes:
  "get_demand_nodes st p = Inr dg \<Longrightarrow>
   nodes (graph dg) = map (\<lambda>i. PyInt (int i)) [0..<length (cycleNodes st False)]"
  by (auto simp: get_demand_nodes_def Let_def nodes_def nodes_enumerate_dict
      split: sum.splits if_splits)




section \<open>The decimal rendering of an integer is injective\<close>

lemma digit_inj: "a < 10 \<Longrightarrow> b < 10 \<Longrightarrow> digit a = digit b \<Longrightarrow> a = b"
proof -
  assume a: "a < 10" and b: "b < 10" and e: "digit a = digit b"
  from e have "(of_char (digit a) :: nat) = of_char (digit b)" by simp
  then have "(48 + a) mod 256 = (48 + b) mod 256" by (simp add: digit_def)
  with a b show "a = b" by simp
qed

lemma digit_not_minus: "a < 10 \<Longrightarrow> digit a \<noteq> CHR ''-''"
proof
  assume a: "a < 10" and e: "digit a = CHR ''-''"
  from e have "(of_char (digit a) :: nat) = of_char (CHR ''-'')" by simp
  then have "(48 + a) mod 256 = 45" by (simp add: digit_def)
  with a show False by simp
qed

lemma str_nat_nonempty: "str_nat n \<noteq> []"
  by (subst str_nat.simps) simp

lemma str_nat_digits: "c \<in> set (str_nat n) \<Longrightarrow> \<exists>d < 10. c = digit d"
proof (induction n rule: str_nat.induct)
  case (1 n)
  show ?case
  proof (cases "n < 10")
    case True
    with "1.prems" show ?thesis by (subst (asm) str_nat.simps) auto
  next
    case False
    from "1.prems" False have "c \<in> set (str_nat (n div 10)) \<or> c = digit (n mod 10)"
      by (subst (asm) str_nat.simps) auto
    then show ?thesis
    proof
      assume "c \<in> set (str_nat (n div 10))"
      with "1.IH" False show ?thesis by simp
    next
      assume "c = digit (n mod 10)"
      moreover have "n mod 10 < 10" by simp
      ultimately show ?thesis by blast
    qed
  qed
qed

lemma str_nat_inj: "str_nat m = str_nat n \<Longrightarrow> m = n"
proof (induction m arbitrary: n rule: str_nat.induct)
  case (1 m)
  show ?case
  proof (cases "m < 10")
    case m: True
    show ?thesis
    proof (cases "n < 10")
      case True
      with m "1.prems" have "digit m = digit n"
        by (subst (asm) str_nat.simps, subst (asm) (2) str_nat.simps) simp
      with m True show ?thesis by (rule digit_inj)
    next
      case False
      with m "1.prems" have "[digit m] = str_nat (n div 10) @ [digit (n mod 10)]"
        by (subst (asm) str_nat.simps, subst (asm) (2) str_nat.simps) simp
      then have "str_nat (n div 10) = []" by simp
      with str_nat_nonempty show ?thesis by blast
    qed
  next
    case m: False
    show ?thesis
    proof (cases "n < 10")
      case True
      with m "1.prems" have "str_nat (m div 10) @ [digit (m mod 10)] = [digit n]"
        by (subst (asm) str_nat.simps, subst (asm) (2) str_nat.simps) simp
      then have "str_nat (m div 10) = []" by simp
      with str_nat_nonempty show ?thesis by blast
    next
      case False
      with m "1.prems" have "str_nat (m div 10) @ [digit (m mod 10)]
          = str_nat (n div 10) @ [digit (n mod 10)]"
        by (subst (asm) str_nat.simps, subst (asm) (2) str_nat.simps) simp
      then have a: "str_nat (m div 10) = str_nat (n div 10)"
        and b: "digit (m mod 10) = digit (n mod 10)" by simp_all
      from "1.IH" [OF m a] have "m div 10 = n div 10" .
      moreover from b have "m mod 10 = n mod 10" by (intro digit_inj) simp_all
      ultimately show ?thesis by (metis div_mult_mod_eq)
    qed
  qed
qed

lemma str_int_inj: "str_int i = str_int j \<Longrightarrow> i = j"
proof -
  assume e: "str_int i = str_int j"
  have nm: "hd (str_nat n) \<noteq> CHR ''-''" for n
  proof -
    have "hd (str_nat n) \<in> set (str_nat n)" using str_nat_nonempty by simp
    then obtain d where "d < 10" "hd (str_nat n) = digit d" using str_nat_digits by blast
    then show ?thesis using digit_not_minus by simp
  qed
  have ne: "CHR ''-'' # str_nat a \<noteq> str_nat b" for a b
    using nm [of b] by (cases "str_nat b") auto
  show "i = j"
  proof (cases "i < 0")
    case i: True
    show ?thesis
    proof (cases "j < 0")
      case True
      with i e have "str_nat (nat (- i)) = str_nat (nat (- j))" by (simp add: str_int_def)
      then have "nat (- i) = nat (- j)" by (rule str_nat_inj)
      with i True show ?thesis by simp
    next
      case False
      with i e ne show ?thesis by (simp add: str_int_def)
    qed
  next
    case i: False
    show ?thesis
    proof (cases "j < 0")
      case True
      with i e ne [of "nat (- j)" "nat i"] show ?thesis by (simp add: str_int_def)
    next
      case False
      with i e have "str_nat (nat i) = str_nat (nat j)" by (simp add: str_int_def)
      then have "nat i = nat j" by (rule str_nat_inj)
      with i False show ?thesis by simp
    qed
  qed
qed

lemma py_str_number_inj:
  "is_number a \<Longrightarrow> is_number b \<Longrightarrow> py_str a = py_str b \<Longrightarrow> key_of a = key_of b"
  by (cases a; cases b) (auto dest: str_int_inj)

section \<open>Existing-Network Namespacer: the claim\<close>

lemma foldl_dict_set_fresh:
  "distinct (map (key_of \<circ> kf) xs) \<Longrightarrow> \<forall>x \<in> set xs. \<not> has_key d (kf x) \<Longrightarrow>
   foldl (\<lambda>d x. dict_set d (kf x) (vf x)) d xs = d @ map (\<lambda>x. (kf x, vf x)) xs"
proof (induction xs arbitrary: d)
  case Nil
  show ?case by simp
next
  case (Cons x xs)
  from Cons.prems have fresh: "\<not> has_key d (kf x)" by simp
  have "\<forall>y \<in> set xs. \<not> has_key (d @ [(kf x, vf x)]) (kf y)"
  proof
    fix y assume y: "y \<in> set xs"
    with Cons.prems(1) have "key_of (kf y) \<noteq> key_of (kf x)" by (auto simp: image_iff)
    with Cons.prems(2) y show "\<not> has_key (d @ [(kf x, vf x)]) (kf y)"
      by (simp add: has_key_append has_key_single)
  qed
  with Cons.prems(1) have "foldl (\<lambda>d x. dict_set d (kf x) (vf x)) (d @ [(kf x, vf x)]) xs
      = (d @ [(kf x, vf x)]) @ map (\<lambda>x. (kf x, vf x)) xs"
    by (intro Cons.IH) simp_all
  then show ?case by (simp add: dict_set_fresh [OF fresh])
qed

lemma key_of_grid_label: "key_of (grid_label n) = Inr (''grid-'' @ py_str n)"
  by (simp add: grid_label_def)

lemma grid_label_not_number: "is_number d \<Longrightarrow> key_of (grid_label n) \<noteq> key_of d"
  by (cases d) (simp_all add: key_of_grid_label)

lemma distinct_grid_keys:
  assumes "distinct (map key_of ns)"
    and "\<forall>a \<in> set ns. \<forall>b \<in> set ns. py_str a = py_str b \<longrightarrow> key_of a = key_of b"
  shows "distinct (map (key_of \<circ> grid_label) ns)"
proof -
  from assms(1) have d: "distinct ns" and i: "inj_on key_of (set ns)" by (simp_all add: distinct_map)
  have "inj_on (key_of \<circ> grid_label) (set ns)"
  proof (rule inj_onI)
    fix a b assume ab: "a \<in> set ns" "b \<in> set ns" "(key_of \<circ> grid_label) a = (key_of \<circ> grid_label) b"
    then have "py_str a = py_str b" by (simp add: key_of_grid_label)
    with assms(2) ab(1,2) have "key_of a = key_of b" by blast
    with i ab(1,2) show "a = b" by (simp add: inj_on_def)
  qed
  with d show ?thesis by (simp add: distinct_map)
qed

lemma grid_mapping_eq:
  "distinct (map key_of ns) \<Longrightarrow> grid_mapping ns = map (\<lambda>n. (n, grid_label n)) ns"
  unfolding grid_mapping_def
  using foldl_dict_set_fresh [of "\<lambda>n. n" ns "[]" grid_label] by (simp add: has_key_def comp_def)

lemma grid_coords_eq:
  "distinct (map (key_of \<circ> grid_label) (map fst cs)) \<Longrightarrow>
   grid_coords cs = map (\<lambda>nc. (grid_label (fst nc), snd nc)) cs"
  unfolding grid_coords_def
  using foldl_dict_set_fresh [of "\<lambda>nc. grid_label (fst nc)" cs "[]" snd]
  by (simp add: has_key_def comp_def)

text \<open>
  Claim C5, as amended. Let the existing network be well formed (its node ids and the keys
  of its coordinate mapping are distinct dict keys) and let distinct ids have distinct
  \<open>str()\<close> renderings, as they do when all ids are integers. Then no node id of the
  namespaced network is the same dict key as a node id of the demand graph; the nodes
  (with their attributes), the edge endpoints and the keys of the coordinate mapping are
  all relabelled by the one function \<open>grid_label\<close>; and every relabelled id is mapped to the
  coordinate its original had.
\<close>

theorem namespace_disjoint_and_rekeyed:
  assumes "wf_graph (graph ex)" and "distinct (map key_of (nodes (graph ex)))"
    and "distinct (map (key_of \<circ> fst) (coords ex))"
    and "(\<forall>n \<in> set (nodes (graph ex)) \<union> fst ` set (coords ex). is_number n)
         \<or> (\<forall>a \<in> set (nodes (graph ex)) \<union> fst ` set (coords ex).
              \<forall>b \<in> set (nodes (graph ex)) \<union> fst ` set (coords ex).
                py_str a = py_str b \<longrightarrow> key_of a = key_of b)"
    and "get_demand_nodes st p = Inr dg"
  shows "(\<forall>n \<in> set (nodes (graph (namespace_existing ex))). \<forall>d \<in> set (nodes (graph dg)).
            key_of n \<noteq> key_of d)
         \<and> node (graph (namespace_existing ex))
             = map (\<lambda>na. (grid_label (fst na), snd na)) (node (graph ex))
         \<and> edges (graph (namespace_existing ex))
             = map (\<lambda>e. (grid_label (fst e), grid_label (fst (snd e)), snd (snd e)))
                 (edges (graph ex))
         \<and> map fst (coords (namespace_existing ex)) = map (grid_label \<circ> fst) (coords ex)
         \<and> (\<forall>nc \<in> set (coords ex).
               dict_get (coords (namespace_existing ex)) (grid_label (fst nc)) = Inr (snd nc))"
proof -
  let ?S = "set (nodes (graph ex)) \<union> fst ` set (coords ex)"
  have P: "\<forall>a \<in> ?S. \<forall>b \<in> ?S. py_str a = py_str b \<longrightarrow> key_of a = key_of b"
    using assms(4) py_str_number_inj by blast
  have g: "graph (namespace_existing ex)
           = \<lparr>node = map (\<lambda>na. (grid_label (fst na), snd na)) (node (graph ex)),
              edges = map (\<lambda>e. (grid_label (fst e), grid_label (fst (snd e)), snd (snd e)))
                        (edges (graph ex))\<rparr>"
    by (simp add: namespace_existing_def grid_mapping_eq [OF assms(2)]
        relabel_nodes_mapping [OF assms(1,2)])
  have dk: "distinct (map (key_of \<circ> grid_label) (map fst (coords ex)))"
  proof (rule distinct_grid_keys)
    show "distinct (map key_of (map fst (coords ex)))" using assms(3) by (simp add: comp_def)
    show "\<forall>a \<in> set (map fst (coords ex)). \<forall>b \<in> set (map fst (coords ex)).
            py_str a = py_str b \<longrightarrow> key_of a = key_of b"
      using P by simp
  qed
  have c: "coords (namespace_existing ex) = map (\<lambda>nc. (grid_label (fst nc), snd nc)) (coords ex)"
    by (simp add: namespace_existing_def grid_coords_eq [OF dk])
  have dis: "key_of n \<noteq> key_of d"
    if "n \<in> set (nodes (graph (namespace_existing ex)))" "d \<in> set (nodes (graph dg))" for n d
  proof -
    from that(1) obtain m where n: "n = grid_label m" by (auto simp: g nodes_def)
    from that(2) have "is_number d" by (auto simp: nodes_get_demand_nodes [OF assms(5)])
    then show ?thesis unfolding n by (rule grid_label_not_number)
  qed
  have look: "dict_get (coords (namespace_existing ex)) (grid_label (fst nc)) = Inr (snd nc)"
    if "nc \<in> set (coords ex)" for nc
  proof (rule dict_get_distinct)
    show "distinct (map (key_of \<circ> fst) (coords (namespace_existing ex)))"
      using dk by (simp add: c comp_def)
    show "(grid_label (fst nc), snd nc) \<in> set (coords (namespace_existing ex))"
      using that by (auto simp: c)
    show "key_of (grid_label (fst nc)) = key_of (grid_label (fst nc))" by simp
  qed
  from dis look show ?thesis by (simp add: g c)
qed

theorem namespace_disjoint_and_rekeyed_witness:
  "dict_get
     (coords (namespace_existing
        \<lparr>srs = PROJ4_LATLONG, coords = [(PyInt 0, (36.7, - 1.4)), (PyInt 1, (36.75, - 1.35))],
         graph = \<lparr>node = [(PyInt 0, Some (Fin 0)), (PyInt 1, Some (Fin 0))],
                  edges = [(PyInt 0, PyInt 1, \<lparr>attr_weight = Some 7, attr_is_existing = None,
                                              attr_subnet_id = None\<rparr>)]\<rparr>\<rparr>))
     (PyStr ''grid-1'') = Inr (36.75, - 1.35)"
proof -
  let ?ex = "\<lparr>srs = PROJ4_LATLONG, coords = [(PyInt 0, (36.7, - 1.4)), (PyInt 1, (36.75, - 1.35))],
         graph = \<lparr>node = [(PyInt 0, Some (Fin 0)), (PyInt 1, Some (Fin 0))],
                  edges = [(PyInt 0, PyInt 1, \<lparr>attr_weight = Some 7, attr_is_existing = None,
                                              attr_subnet_id = None\<rparr>)]\<rparr>\<rparr>"
  let ?st = "\<lparr>store_nodes =
      [\<lparr>node_id = PyInt 1, node_coords = (36.8, - 1.3), metric = Fin 10, is_fake = False\<rparr>],
     store_segments = [], subnet_count = 0\<rparr>"
  let ?dg = "\<lparr>srs = PROJ4_LATLONG, coords = [(PyInt 0, (36.8, - 1.3))],
             graph = \<lparr>node = [(PyInt 0, Some (Fin 10))], edges = []\<rparr>\<rparr>"
  have gl: "grid_label (PyInt 1) = PyStr ''grid-1''" by code_simp
  have h1: "wf_graph (graph ?ex)" by (simp add: wf_graph_def nodes_def)
  have h2: "distinct (map key_of (nodes (graph ?ex)))" by (simp add: nodes_def)
  have h3: "distinct (map (key_of \<circ> fst) (coords ?ex))" by simp
  have h4: "(\<forall>n \<in> set (nodes (graph ?ex)) \<union> fst ` set (coords ?ex). is_number n)
         \<or> (\<forall>a \<in> set (nodes (graph ?ex)) \<union> fst ` set (coords ?ex).
              \<forall>b \<in> set (nodes (graph ?ex)) \<union> fst ` set (coords ?ex).
                py_str a = py_str b \<longrightarrow> key_of a = key_of b)"
    by (simp add: nodes_def)
  have c: "cycleNodes ?st False =
      [\<lparr>node_id = PyInt 1, node_coords = (36.8, - 1.3), metric = Fin 10, is_fake = False\<rparr>]"
    by (simp add: cycleNodes_def)
  have h5: "get_demand_nodes ?st None = Inr ?dg"
    unfolding get_demand_nodes_def c
    by (simp add: get_default_proj4_def is_in_lon_lat_def in_lon_lat_box_def enumerate_dict_def)
  from namespace_disjoint_and_rekeyed [OF h1 h2 h3 h4 h5]
  have "\<forall>nc \<in> set (coords ?ex).
          dict_get (coords (namespace_existing ?ex)) (grid_label (fst nc)) = Inr (snd nc)"
    by blast
  then have "dict_get (coords (namespace_existing ?ex)) (grid_label (PyInt 1)) = Inr (36.75, - 1.35)"
    by simp
  then show ?thesis by (simp only: gl)
qed

text \<open>
  Claim C5 as stated fails on an existing network that has both the integer \<open>1\<close> and the
  string \<open>'1'\<close> as node ids: both become \<open>'grid-1'\<close>, and the relabelled node of the integer
  is mapped to the coordinate of the string.
\<close>

theorem namespace_str_collision:
  "dict_get
     (coords (namespace_existing
        \<lparr>srs = PROJ4_LATLONG, coords = [(PyInt 1, (36.7, - 1.4)), (PyStr ''1'', (36.75, - 1.35))],
         graph = \<lparr>node = [(PyInt 1, Some (Fin 0)), (PyStr ''1'', Some (Fin 0))], edges = []\<rparr>\<rparr>))
     (grid_label (PyInt 1)) = Inr (36.75, - 1.35)"
proof -
  have a: "grid_label (PyInt 1) = PyStr ''grid-1''" by code_simp
  have b: "grid_label (PyStr ''1'') = PyStr ''grid-1''" by code_simp
  show ?thesis
    by (simp add: namespace_existing_def grid_coords_def a b dict_set_def has_key_def dict_get_def)
qed

section \<open>The passes of the persister on complete graphs\<close>

lemma fake_nodes_eq:
  "\<forall>n \<in> set ns. \<exists>b. node_budget g n = Inr b \<Longrightarrow>
   fake_nodes g ns = Inr (filter (\<lambda>n. node_budget g n = Inr NpInf) ns)"
  by (induction ns) auto

lemma length_edge_fakes: "length (edge_fakes g e) \<le> 1 \<longleftrightarrow> \<not> two_fakes g e"
  by (auto simp: edge_fakes_def two_fakes_def)

lemma edge_fakes_two: "two_fakes g e \<Longrightarrow> edge_fakes g e = [fst e, fst (snd e)]"
  by (simp add: edge_fakes_def two_fakes_def)

lemma edge_fakes_cases:
  "\<not> two_fakes g e \<Longrightarrow> edge_fakes g e = [] \<or> (\<exists>f. edge_fakes g e = [f])"
  by (auto simp: edge_fakes_def two_fakes_def)

lemma store_edge_ok:
  assumes "edge_ok msf e"
  shows "store_edge msf sid e st =
           (if two_fakes (graph msf) e then Inl AssertionError
            else Inr \<lparr>store_nodes = store_nodes st @ new_nodes msf [e],
                      store_segments = store_segments st @ [edge_segment sid False e],
                      subnet_count = subnet_count st\<rparr>)"
proof -
  from assms have b: "\<forall>n \<in> set [fst e, fst (snd e)]. \<exists>b. node_budget (graph msf) n = Inr b"
    and k1: "has_key (coords msf) (fst e)" and k2: "has_key (coords msf) (fst (snd e))"
    and w: "attr_weight (snd (snd e)) \<noteq> None"
    by (auto simp: edge_ok_def)
  have f: "fake_nodes (graph msf) [fst e, fst (snd e)] = Inr (edge_fakes (graph msf) e)"
    unfolding edge_fakes_def by (rule fake_nodes_eq [OF b])
  note g1 = dict_get_has_key [OF k1] and g2 = dict_get_has_key [OF k2]
  show ?thesis
  proof (cases "two_fakes (graph msf) e")
    case True
    then show ?thesis
      unfolding store_edge_def f by (simp add: edge_fakes_two g1 g2)
  next
    case False
    from edge_fakes_cases [OF False] show ?thesis
    proof
      assume "edge_fakes (graph msf) e = []"
      with False w show ?thesis
        unfolding store_edge_def f
        by (auto simp: new_nodes_def session_add_segment_def edge_segment_def)
    next
      assume "\<exists>f. edge_fakes (graph msf) e = [f]"
      then obtain x where x: "edge_fakes (graph msf) e = [x]" by blast
      then have "x \<in> set (edge_fakes (graph msf) e)" by simp
      then have "x \<in> set [fst e, fst (snd e)]"
        unfolding edge_fakes_def using filter_is_subset by (rule subsetD [rotated])
      then have "x = fst e \<or> x = fst (snd e)" by simp
      then have gx: "dict_get (coords msf) x = Inr (coord_of (coords msf) x)"
        using g1 g2 by auto
      from False w show ?thesis
        unfolding store_edge_def f
        by (auto simp: x gx new_nodes_def session_add_segment_def
            session_add_node_def edge_segment_def fake_record_def addNode_def)
    qed
  qed
qed

lemma new_nodes_Cons: "new_nodes msf (e # es) = new_nodes msf [e] @ new_nodes msf es"
  by (simp add: new_nodes_def)

lemma new_nodes_append: "new_nodes msf (es @ fs) = new_nodes msf es @ new_nodes msf fs"
  by (simp add: new_nodes_def)

lemma store_edges_ok:
  assumes "\<forall>e \<in> set es. edge_ok msf e"
  shows "store_edges msf sid es st =
           (if \<exists>e \<in> set es. two_fakes (graph msf) e then Inl AssertionError
            else Inr \<lparr>store_nodes = store_nodes st @ new_nodes msf es,
                      store_segments = store_segments st @ map (edge_segment sid False) es,
                      subnet_count = subnet_count st\<rparr>)"
  using assms
proof (induction es arbitrary: st)
  case Nil
  show ?case by (simp add: new_nodes_def)
next
  case (Cons e es)
  from Cons.prems have ok: "edge_ok msf e" and oks: "\<forall>e \<in> set es. edge_ok msf e" by auto
  show ?case
  proof (cases "two_fakes (graph msf) e")
    case True
    then show ?thesis by (simp add: store_edge_ok [OF ok])
  next
    case False
    then show ?thesis
      by (simp add: store_edge_ok [OF ok] Cons.IH [OF oks] new_nodes_Cons [of msf e es])
  qed
qed

lemma store_subgraphs_ok:
  assumes "\<forall>e \<in> set (concat (map edges subs)). edge_ok msf e"
  shows "store_subgraphs msf subs st =
           (if \<exists>e \<in> set (concat (map edges subs)). two_fakes (graph msf) e then Inl AssertionError
            else Inr \<lparr>store_nodes = store_nodes st @ new_nodes msf (concat (map edges subs)),
                      store_segments = store_segments st @ subgraph_segments (subnet_count st) subs,
                      subnet_count = subnet_count st + length subs\<rparr>)"
  using assms
proof (induction subs arbitrary: st)
  case Nil
  show ?case by (simp add: new_nodes_def)
next
  case (Cons sub subs)
  from Cons.prems have ok: "\<forall>e \<in> set (edges sub). edge_ok msf e"
    and oks: "\<forall>e \<in> set (concat (map edges subs)). edge_ok msf e" by auto
  show ?case
  proof (cases "\<exists>e \<in> set (edges sub). two_fakes (graph msf) e")
    case True
    then show ?thesis by (auto simp: store_edges_ok [OF ok])
  next
    case False
    then show ?thesis
      by (auto simp: store_edges_ok [OF ok] Cons.IH [OF oks] new_nodes_append)
  qed
qed

section \<open>Topology Persister: the claims\<close>

lemma set_component_edges: "wf_graph g \<Longrightarrow> set (component_edges g) = set (edges g)"
proof -
  assume w: "wf_graph g"
  have "component_edges g = edges (union_graph g (components g (nodes g)))"
    by (simp add: component_edges_def connected_component_subgraphs_def union_graph_def comp_def)
  then show ?thesis using edges_union_graph_all [OF w] by simp
qed

lemma store_existing_edges_ok:
  "\<forall>e \<in> set es. attr_weight (snd (snd e)) \<noteq> None \<Longrightarrow>
   store_existing_edges es sid st =
     Inr \<lparr>store_nodes = store_nodes st,
          store_segments = store_segments st @ map (edge_segment sid True) es,
          subnet_count = subnet_count st\<rparr>"
proof (induction es arbitrary: st)
  case Nil
  show ?case by simp
next
  case (Cons e es)
  then obtain w where w: "attr_weight (snd (snd e)) = Some w" by auto
  from Cons.prems have "\<forall>e \<in> set es. attr_weight (snd (snd e)) \<noteq> None" by simp
  from Cons.IH [OF this] show ?case
    by (simp add: w session_add_segment_def edge_segment_def)
qed

lemma in_subgraph_segments:
  "s \<in> set (subgraph_segments k subs) \<Longrightarrow>
   \<exists>j e. e \<in> set (concat (map edges subs)) \<and> s = edge_segment (Some j) False e"
  by (induction subs arbitrary: k) (auto, blast+)

lemma store_networks_ok:
  assumes "complete_msf msf" and "store_existing existing st = Inr st1"
  shows "store_networks msf existing st =
           (if \<exists>e \<in> set (edges (graph msf)). two_fakes (graph msf) e then Inl AssertionError
            else Inr \<lparr>store_nodes = store_nodes st1 @ new_nodes msf (component_edges (graph msf)),
                      store_segments = store_segments st1
                        @ subgraph_segments (subnet_count st1)
                            (connected_component_subgraphs (graph msf)),
                      subnet_count = subnet_count st1
                        + length (connected_component_subgraphs (graph msf))\<rparr>)"
proof -
  from assms(1) have w: "wf_graph (graph msf)" by (simp add: complete_msf_def)
  note s = set_component_edges [OF w]
  from assms(1) have ok: "\<forall>e \<in> set (concat (map edges (connected_component_subgraphs (graph msf)))).
      edge_ok msf e"
    using s by (simp add: complete_msf_def component_edges_def)
  have ex: "(\<exists>e \<in> set (concat (map edges (connected_component_subgraphs (graph msf)))).
      two_fakes (graph msf) e) \<longleftrightarrow> (\<exists>e \<in> set (edges (graph msf)). two_fakes (graph msf) e)"
    using s by (simp add: component_edges_def)
  show ?thesis
    unfolding store_networks_def assms(2)
    using store_subgraphs_ok [OF ok, of st1] ex
    by (simp add: component_edges_def)
qed

text \<open>
  Claim C2, as amended. On a complete graph (well formed, every edge endpoint with a
  budget and a coordinate, every edge with a weight) and after a successful existing pass:
  if some edge has two endpoints of infinite budget, persistence aborts with
  \<open>AssertionError\<close>; otherwise it succeeds, and every segment the proposed pass emits has
  \<open>is_existing = False\<close> and at most one endpoint of infinite budget.
\<close>

theorem proposed_segments_one_fake:
  assumes "complete_msf msf" and "store_existing existing st = Inr st1"
  shows "((\<exists>e \<in> set (edges (graph msf)). two_fakes (graph msf) e)
            \<longrightarrow> store_networks msf existing st = Inl AssertionError)
         \<and> ((\<forall>e \<in> set (edges (graph msf)). \<not> two_fakes (graph msf) e) \<longrightarrow>
              (\<exists>st' new. store_networks msf existing st = Inr st'
                 \<and> store_segments st' = store_segments st1 @ new
                 \<and> (\<forall>s \<in> set new. \<not> is_existing s
                       \<and> \<not> (node_budget (graph msf) (node1_id s) = Inr NpInf
                            \<and> node_budget (graph msf) (node2_id s) = Inr NpInf))))"
proof (intro conjI impI)
  assume "\<exists>e \<in> set (edges (graph msf)). two_fakes (graph msf) e"
  then show "store_networks msf existing st = Inl AssertionError"
    by (simp add: store_networks_ok [OF assms])
next
  assume none: "\<forall>e \<in> set (edges (graph msf)). \<not> two_fakes (graph msf) e"
  let ?new = "subgraph_segments (subnet_count st1) (connected_component_subgraphs (graph msf))"
  let ?st' = "\<lparr>store_nodes = store_nodes st1 @ new_nodes msf (component_edges (graph msf)),
               store_segments = store_segments st1 @ ?new,
               subnet_count = subnet_count st1
                 + length (connected_component_subgraphs (graph msf))\<rparr>"
  from assms(1) have w: "wf_graph (graph msf)" by (simp add: complete_msf_def)
  have r: "store_networks msf existing st = Inr ?st'"
    using none by (simp add: store_networks_ok [OF assms])
  have p: "\<not> is_existing s
      \<and> \<not> (node_budget (graph msf) (node1_id s) = Inr NpInf
           \<and> node_budget (graph msf) (node2_id s) = Inr NpInf)" if "s \<in> set ?new" for s
  proof -
    from in_subgraph_segments [OF that] obtain j e
      where e: "e \<in> set (component_edges (graph msf))" and s: "s = edge_segment (Some j) False e"
      unfolding component_edges_def by blast
    from e have "e \<in> set (edges (graph msf))" by (simp add: set_component_edges [OF w])
    with none have "\<not> two_fakes (graph msf) e" by blast
    then show ?thesis by (simp add: s edge_segment_def two_fakes_def)
  qed
  show "\<exists>st' new. store_networks msf existing st = Inr st'
      \<and> store_segments st' = store_segments st1 @ new
      \<and> (\<forall>s \<in> set new. \<not> is_existing s
            \<and> \<not> (node_budget (graph msf) (node1_id s) = Inr NpInf
                 \<and> node_budget (graph msf) (node2_id s) = Inr NpInf))"
    apply (rule exI [of _ ?st'])
    apply (rule exI [of _ ?new])
    using r p by simp
qed

theorem proposed_segments_one_fake_witness:
  "\<exists>st' new.
     store_networks
       \<lparr>srs = PROJ4_LATLONG,
        coords = [(PyInt 1, (36.8, - 1.3)), (PyInt 2, (36.9, - 1.2)), (PyInt 3, (37, - 1.1))],
        graph = \<lparr>node = [(PyInt 1, Some (Fin 10)), (PyInt 2, Some (Fin 20)), (PyInt 3, Some NpInf)],
                 edges = [(PyInt 1, PyInt 3, \<lparr>attr_weight = Some 4, attr_is_existing = None,
                                             attr_subnet_id = None\<rparr>),
                          (PyInt 2, PyInt 1, \<lparr>attr_weight = Some 6, attr_is_existing = None,
                                             attr_subnet_id = None\<rparr>)]\<rparr>\<rparr>
       None \<lparr>store_nodes = [], store_segments = [], subnet_count = 0\<rparr> = Inr st'
     \<and> store_segments st' = new
     \<and> (\<forall>s \<in> set new. \<not> is_existing s)"
proof -
  let ?msf = "\<lparr>srs = PROJ4_LATLONG,
        coords = [(PyInt 1, (36.8, - 1.3)), (PyInt 2, (36.9, - 1.2)), (PyInt 3, (37, - 1.1))],
        graph = \<lparr>node = [(PyInt 1, Some (Fin 10)), (PyInt 2, Some (Fin 20)), (PyInt 3, Some NpInf)],
                 edges = [(PyInt 1, PyInt 3, \<lparr>attr_weight = Some 4, attr_is_existing = None,
                                             attr_subnet_id = None\<rparr>),
                          (PyInt 2, PyInt 1, \<lparr>attr_weight = Some 6, attr_is_existing = None,
                                             attr_subnet_id = None\<rparr>)]\<rparr>\<rparr>"
  let ?st = "\<lparr>store_nodes = [], store_segments = [], subnet_count = 0\<rparr>"
  have h1: "complete_msf ?msf"
    by (simp add: complete_msf_def wf_graph_def nodes_def edge_ok_def node_budget_def
        dict_get_def has_key_def)
  have h2: "store_existing None ?st = Inr ?st" by (simp add: store_existing_def)
  have h3: "\<forall>e \<in> set (edges (graph ?msf)). \<not> two_fakes (graph ?msf) e"
    by (simp add: two_fakes_def node_budget_def dict_get_def)
  from proposed_segments_one_fake [OF h1 h2] h3 show ?thesis by auto
qed

text \<open>
  Claim C2 as stated fails on the error raised: an edge between two nodes of infinite
  budget aborts persistence with \<open>AssertionError\<close> (the \<open>assert i <= 1\<close> of line 207), not
  with \<open>StructuralIntegrityError\<close>.
\<close>

theorem two_fakes_assertion_error:
  "store_networks
     \<lparr>srs = PROJ4_LATLONG, coords = [(PyInt 4, (36.8, - 1.3)), (PyInt 5, (36.9, - 1.2))],
      graph = \<lparr>node = [(PyInt 4, Some NpInf), (PyInt 5, Some NpInf)],
               edges = [(PyInt 4, PyInt 5, \<lparr>attr_weight = Some 4, attr_is_existing = None,
                                           attr_subnet_id = None\<rparr>)]\<rparr>\<rparr>
     None \<lparr>store_nodes = [], store_segments = [], subnet_count = 0\<rparr> = Inl AssertionError
   \<and> store_networks
     \<lparr>srs = PROJ4_LATLONG, coords = [(PyInt 4, (36.8, - 1.3)), (PyInt 5, (36.9, - 1.2))],
      graph = \<lparr>node = [(PyInt 4, Some NpInf), (PyInt 5, Some NpInf)],
               edges = [(PyInt 4, PyInt 5, \<lparr>attr_weight = Some 4, attr_is_existing = None,
                                           attr_subnet_id = None\<rparr>)]\<rparr>\<rparr>
     None \<lparr>store_nodes = [], store_segments = [], subnet_count = 0\<rparr>
     \<noteq> Inl StructuralIntegrityError"
proof -
  let ?g = "\<lparr>node = [(PyInt 4, Some NpInf), (PyInt 5, Some NpInf)],
               edges = [(PyInt 4, PyInt 5, \<lparr>attr_weight = Some 4, attr_is_existing = None,
                                           attr_subnet_id = None\<rparr>)]\<rparr>"
  have c: "components ?g (nodes ?g) = [[PyInt 4, PyInt 5]]" by code_simp
  show ?thesis
    by (simp add: store_networks_def store_existing_def connected_component_subgraphs_def c
        subgraph_def store_edge_def node_budget_def dict_get_def session_add_node_def)
qed








text \<open>
  Claim C7. An existing network of one edge and a forest of one edge: the existing pass
  writes one segment with \<open>is_existing = True\<close> and the edge's weight, but its \<open>subnet_id\<close>
  is \<open>None\<close> and the only subnet the store has numbered is the one of the forest's
  component: the \<open>Subnet\<close> of line 179 is never added to the session.
\<close>

theorem existing_pass_unsaved_subnet:
  "store_networks
     \<lparr>srs = PROJ4_LATLONG, coords = [(PyInt 1, (36.8, - 1.3)), (PyInt 2, (36.9, - 1.2))],
      graph = \<lparr>node = [(PyInt 1, Some (Fin 10)), (PyInt 2, Some (Fin 20))],
               edges = [(PyInt 1, PyInt 2, \<lparr>attr_weight = Some 4, attr_is_existing = None,
                                           attr_subnet_id = None\<rparr>)]\<rparr>\<rparr>
     (Some \<lparr>srs = PROJ4_LATLONG,
            coords = [(PyStr ''grid-0'', (36.7, - 1.4)), (PyStr ''grid-1'', (36.75, - 1.35))],
            graph = \<lparr>node = [(PyStr ''grid-0'', Some (Fin 0)), (PyStr ''grid-1'', Some (Fin 0))],
                     edges = [(PyStr ''grid-0'', PyStr ''grid-1'',
                               \<lparr>attr_weight = Some 7, attr_is_existing = None,
                                attr_subnet_id = None\<rparr>)]\<rparr>\<rparr>)
     \<lparr>store_nodes = [], store_segments = [], subnet_count = 0\<rparr>
   = Inr \<lparr>store_nodes = [],
          store_segments =
            [\<lparr>node1_id = PyStr ''grid-0'', node2_id = PyStr ''grid-1'', subnet_id = None,
              is_existing = True, weight = 7\<rparr>,
             \<lparr>node1_id = PyInt 1, node2_id = PyInt 2, subnet_id = Some 1, is_existing = False,
              weight = 4\<rparr>],
          subnet_count = 1\<rparr>"
proof -
  let ?g = "\<lparr>node = [(PyInt 1, Some (Fin 10)), (PyInt 2, Some (Fin 20))],
               edges = [(PyInt 1, PyInt 2, \<lparr>attr_weight = Some 4, attr_is_existing = None,
                                           attr_subnet_id = None\<rparr>)]\<rparr>"
  have c: "components ?g (nodes ?g) = [[PyInt 1, PyInt 2]]" by code_simp
  show ?thesis
    by (simp add: store_networks_def store_existing_def connected_component_subgraphs_def c
        subgraph_def store_edge_def node_budget_def dict_get_def session_add_node_def
        session_add_segment_def addNode_def)
qed

text \<open>
  What the existing pass does in general: one segment per edge of the existing network,
  flagged existing, with the edge's weight and without a subnet number; and the proposed
  pass adds no segment that is flagged existing, whatever the forest.
\<close>

lemma store_existing_ok:
  assumes "wf_graph (graph ex)" and "\<forall>e \<in> set (edges (graph ex)). attr_weight (snd (snd e)) \<noteq> None"
  shows "store_existing (Some ex) st =
           Inr \<lparr>store_nodes = store_nodes st,
                store_segments = store_segments st @ map (edge_segment None True) (edges (graph ex)),
                subnet_count = subnet_count st\<rparr>"
proof (cases "node (graph ex) = []")
  case True
  with assms(1) have "edges (graph ex) = []"
    by (cases "edges (graph ex)") (auto simp: wf_graph_def nodes_def)
  with True show ?thesis by (simp add: store_existing_def)
next
  case False
  then show ?thesis
    by (simp add: store_existing_def store_existing_edges_ok [OF assms(2)])
qed

lemma subgraph_segments_not_existing: "s \<in> set (subgraph_segments k subs) \<Longrightarrow> \<not> is_existing s"
  using in_subgraph_segments [of s k subs] by (auto simp: edge_segment_def)

lemma existing_segments_independent:
  assumes "complete_msf msf" and "store_existing existing st = Inr st1"
    and "store_networks msf existing st = Inr st'"
  shows "cycleSegments st' True = cycleSegments st1 True"
proof -
  have f: "filter is_existing (subgraph_segments k subs) = []" for k subs
    using subgraph_segments_not_existing [of _ k subs] by (simp add: filter_empty_conv)
  from assms(3) show ?thesis
    unfolding store_networks_ok [OF assms(1,2)]
    by (auto simp: cycleSegments_def f split: if_splits)
qed

section \<open>\<open>dataset_store_to_geograph\<close>: the claim\<close>

















section \<open>Resolver properties\<close>

text \<open>
  Claim C9. For a non-empty coordinate sequence lying wholly inside
  [-180, 180] x [-90, 90] the resolver selects the geographic reference; as soon as one
  coordinate lies outside that box it selects the planar reference; and the empty
  sequence fails with InvalidInputError (the failure is the one of the helper
  \<open>is_in_lon_lat\<close>, which the resolver lets through).
\<close>

theorem get_default_proj4_spec:
  "(xs \<noteq> [] \<and> (\<forall>c \<in> set xs. in_lon_lat_box c)
      \<longrightarrow> get_default_proj4 xs = Inr PROJ4_LATLONG)
   \<and> ((\<exists>c \<in> set xs. \<not> in_lon_lat_box c)
      \<longrightarrow> get_default_proj4 xs = Inr PROJ4_FLAT_EARTH)
   \<and> get_default_proj4 [] = Inl InvalidInputError"
  by (auto simp: get_default_proj4_def is_in_lon_lat_def list_all_iff)

theorem get_default_proj4_spec_witness:
  "get_default_proj4 [(36.8, - 1.3), (- 122.4, 37.8)] = Inr PROJ4_LATLONG
   \<and> get_default_proj4 [(36.8, - 1.3), (500000, 4649776)] = Inr PROJ4_FLAT_EARTH
   \<and> get_default_proj4 [] = Inl InvalidInputError"
proof -
  have a: "[(36.8, - 1.3), (- 122.4, 37.8)] \<noteq> ([] :: coord list)
    \<and> (\<forall>c \<in> set [(36.8, - 1.3), (- 122.4, 37.8) :: coord]. in_lon_lat_box c)"
    by (simp add: in_lon_lat_box_def)
  have b: "\<exists>c \<in> set [(36.8, - 1.3), (500000, 4649776) :: coord]. \<not> in_lon_lat_box c"
    by (simp add: in_lon_lat_box_def)
  from a b show ?thesis
    using get_default_proj4_spec [of "[(36.8, - 1.3), (- 122.4, 37.8)]"]
      get_default_proj4_spec [of "[(36.8, - 1.3), (500000, 4649776)]"]
    by blast
qed

end
